theory Spec2Isabelle
  imports Complex_Main
begin

section \<open>Values of the loader\<close>

text \<open>
  The script \<^verbatim>\<open>load_orders.py\<close> reads a JSON document and stores its records in the
  table \<^verbatim>\<open>orders\<close> of an SQLite file. A parsed document is a value of \<open>json\<close>: Python's
  \<^verbatim>\<open>None\<close>, \<^verbatim>\<open>bool\<close>, \<^verbatim>\<open>int\<close>, \<^verbatim>\<open>float\<close>, \<^verbatim>\<open>str\<close>, \<^verbatim>\<open>list\<close> and \<^verbatim>\<open>dict\<close>. A dict is an association
  list read with \<open>map_of\<close> (the program only looks keys up). A float is carried as an opaque
  number: the program never computes with one.
\<close>

datatype json =
    JNull
  | JBool bool
  | JInt int
  | JFloat real
  | JStr string
  | JArr "json list"
  | JObj "(string \<times> json) list"

text \<open>
  The exceptions the program can meet. \<open>IntegrityError\<close>, \<open>InterfaceError\<close>,
  \<open>ProgrammingError\<close> and \<open>OperationalError\<close> are the classes of \<^verbatim>\<open>sqlite3.Error\<close>;
  \<open>FileNotFoundError\<close>, \<open>IsADirectoryError\<close> and \<open>PermissionError\<close> are those of \<^verbatim>\<open>OSError\<close> that
  \<^verbatim>\<open>open\<close> raises here.
\<close>

datatype exn =
    KeyError string
  | TypeError
  | AttributeError
  | OverflowError
  | FileNotFoundError
  | IsADirectoryError
  | PermissionError
  | UnicodeDecodeError
  | JSONDecodeError
  | IntegrityError
  | InterfaceError
  | ProgrammingError
  | OperationalError

text \<open>\<^verbatim>\<open>raw[key]\<close>: only a dict can be subscripted with a string, and a missing key raises.\<close>

fun py_getitem :: "json \<Rightarrow> string \<Rightarrow> exn + json" where
  "py_getitem (JObj kvs) k = (case map_of kvs k of None \<Rightarrow> Inl (KeyError k) | Some v \<Rightarrow> Inr v)"
| "py_getitem _ k = Inl TypeError"

text \<open>\<^verbatim>\<open>d.get(key, default)\<close>: only a dict has the method.\<close>

fun py_get :: "json \<Rightarrow> string \<Rightarrow> json \<Rightarrow> exn + json" where
  "py_get (JObj kvs) k d = Inr (case map_of kvs k of None \<Rightarrow> d | Some v \<Rightarrow> v)"
| "py_get _ k d = Inl AttributeError"

text \<open>
  \<^verbatim>\<open>x in s\<close> for a set \<open>s\<close>: a list or a dict is unhashable and raises. Values are compared
  as they are written (Python also equates numbers of different types, such as \<^verbatim>\<open>1\<close>, \<^verbatim>\<open>1.0\<close> and
  \<^verbatim>\<open>True\<close>; keys are strings in the documented input).
\<close>

fun hashable :: "json \<Rightarrow> bool" where
  "hashable (JArr _) = False"
| "hashable (JObj _) = False"
| "hashable _ = True"

definition py_in :: "json \<Rightarrow> json set \<Rightarrow> exn + bool" where
  "py_in x s = (if hashable x then Inr (x \<in> s) else Inl TypeError)"


section \<open>The table \<^verbatim>\<open>orders\<close>\<close>

text \<open>
  A row has the five columns the script writes (\<^verbatim>\<open>loaded_at\<close> is filled by SQLite with the
  time of the insert and is left out). The type \<open>'dt\<close> is that of \<^verbatim>\<open>datetime\<close> values. A row
  keeps the values as they were bound: SQLite converts a value whose type is not the
  column's, which does not touch the documented types (see \<open>text_affinity\<close> below for the
  key).
\<close>

record 'dt row =
  order_id :: json
  status :: json
  date :: 'dt
  amount :: json
  customer_region :: json

text \<open>
  Binding a parameter of \<^verbatim>\<open>cur.execute\<close>: SQLite takes \<^verbatim>\<open>None\<close>, integers of 64 bits, floats
  and strings. A larger integer raises \<^verbatim>\<open>OverflowError\<close>, a list or a dict an error of
  \<^verbatim>\<open>sqlite3\<close> that is not an \<^verbatim>\<open>IntegrityError\<close>.
\<close>

fun bind_param :: "json \<Rightarrow> exn option" where
  "bind_param (JInt i) = (if - (2 ^ 63) \<le> i \<and> i < 2 ^ 63 then None else Some OverflowError)"
| "bind_param (JArr _) = Some InterfaceError"
| "bind_param (JObj _) = Some InterfaceError"
| "bind_param _ = None"

text \<open>
  \<^verbatim>\<open>INSERT INTO orders (order_id, status, date, amount, customer_region) VALUES (?, ?, ?, ?, ?)\<close>
  under the schema of \<^verbatim>\<open>create_schema\<close>: the parameters are bound in order; \<^verbatim>\<open>status\<close>,
  \<^verbatim>\<open>amount\<close> and \<^verbatim>\<open>customer_region\<close> are \<^verbatim>\<open>NOT NULL\<close>; \<^verbatim>\<open>order_id\<close> is the primary key (SQLite
  lets a text primary key be \<^verbatim>\<open>NULL\<close>, and \<^verbatim>\<open>NULL\<close> keys never collide). A violated constraint
  raises \<^verbatim>\<open>IntegrityError\<close>; otherwise the row is appended. The test of the primary key
  compares the bound values, which is SQLite's test where the keys are strings.
\<close>

definition execute_insert ::
  "'dt row list \<Rightarrow> json \<Rightarrow> json \<Rightarrow> 'dt \<Rightarrow> json \<Rightarrow> json \<Rightarrow> exn + 'dt row list" where
  "execute_insert t oid st dt am rg =
     (case bind_param oid of Some e \<Rightarrow> Inl e | None \<Rightarrow>
     (case bind_param st of Some e \<Rightarrow> Inl e | None \<Rightarrow>
     (case bind_param am of Some e \<Rightarrow> Inl e | None \<Rightarrow>
     (case bind_param rg of Some e \<Rightarrow> Inl e | None \<Rightarrow>
        (if st = JNull \<or> am = JNull \<or> rg = JNull then Inl IntegrityError
         else if oid \<noteq> JNull \<and> oid \<in> order_id ` set t then Inl IntegrityError
         else Inr (t @ [\<lparr>order_id = oid, status = st, date = dt, amount = am,
                         customer_region = rg\<rparr>]))))))"

text \<open>
  The column \<^verbatim>\<open>order_id\<close> is declared \<^verbatim>\<open>TEXT\<close> (line 71), and SQLite converts a number that is
  inserted there to its text: \<open>text_affinity\<close> is the value that the column keeps, and that a
  later \<^verbatim>\<open>SELECT order_id\<close> gives, for a bound value. \<^verbatim>\<open>None\<close> and a string stay as they are, an
  integer becomes its decimal text, and a \<^verbatim>\<open>bool\<close> is bound as the integer 1 or 0. The result
  is \<open>None\<close> for a float, whose text is not modelled, and for a list or a dict, which cannot
  be bound. A row of the model holds the bound value; the two agree on strings and \<^verbatim>\<open>None\<close>.
\<close>

fun decimal :: "nat \<Rightarrow> string" where
  "decimal n =
     (if n < 10 then [''0123456789'' ! n]
      else decimal (n div 10) @ [''0123456789'' ! (n mod 10)])"

definition int_text :: "int \<Rightarrow> string" where
  "int_text i = (if i < 0 then CHR ''-'' # decimal (nat (- i)) else decimal (nat i))"

fun text_affinity :: "json \<Rightarrow> json option" where
  "text_affinity JNull = Some JNull"
| "text_affinity (JStr s) = Some (JStr s)"
| "text_affinity (JInt i) = Some (JStr (int_text i))"
| "text_affinity (JBool b) = Some (JStr (if b then ''1'' else ''0''))"
| "text_affinity _ = None"

section \<open>The class \<^verbatim>\<open>OrdersDatabase\<close>\<close>

text \<open>
  A connection is open or closed and sees the table \<^verbatim>\<open>orders\<close> of its file, if the table
  exists. The object holds the path and the connection, \<^verbatim>\<open>None\<close> until \<^verbatim>\<open>connect\<close>.
  A method returns the object as it leaves it, or the exception it raises.
\<close>

record 'dt connection =
  closed :: bool
  orders_table :: "'dt row list option"

record 'dt orders_database =
  db_path :: string
  conn :: "'dt connection option"

definition new_orders_database :: "string \<Rightarrow> 'dt orders_database" where
  "new_orders_database path = \<lparr>db_path = path, conn = None\<rparr>"

text \<open>
  \<^verbatim>\<open>connect\<close>: \<^verbatim>\<open>sqlite3.connect\<close> is a parameter, the connection or the error the library
  gives for a path. \<^verbatim>\<open>self.conn\<close> is assigned only when it returned.
\<close>

definition connect ::
  "(string \<Rightarrow> exn + 'dt connection) \<Rightarrow> 'dt orders_database \<Rightarrow> exn + 'dt orders_database" where
  "connect sqlite3_connect db =
     (case sqlite3_connect (db_path db) of
        Inl e \<Rightarrow> Inl e
      | Inr c \<Rightarrow> Inr (db\<lparr>conn := Some c\<rparr>))"

text \<open>
  \<^verbatim>\<open>close\<close>: nothing when \<^verbatim>\<open>self.conn\<close> is \<^verbatim>\<open>None\<close>; else the connection is closed (closing a
  closed connection is allowed by \<^verbatim>\<open>sqlite3\<close>).
\<close>

definition close :: "'dt orders_database \<Rightarrow> exn + 'dt orders_database" where
  "close db =
     (case conn db of
        None \<Rightarrow> Inr db
      | Some c \<Rightarrow> Inr (db\<lparr>conn := Some (c\<lparr>closed := True\<rparr>)\<rparr>))"

text \<open>
  \<^verbatim>\<open>self.conn.cursor()\<close>: \<^verbatim>\<open>None\<close> has no such attribute, and a closed connection refuses.
\<close>

definition cursor :: "'dt orders_database \<Rightarrow> exn + 'dt connection" where
  "cursor db =
     (case conn db of
        None \<Rightarrow> Inl AttributeError
      | Some c \<Rightarrow> if closed c then Inl ProgrammingError else Inr c)"

definition create_schema :: "'dt orders_database \<Rightarrow> exn + 'dt orders_database" where
  "create_schema db =
     (case cursor db of
        Inl e \<Rightarrow> Inl e
      | Inr c \<Rightarrow>
          Inr (db\<lparr>conn := Some (c\<lparr>orders_table :=
                 Some (case orders_table c of None \<Rightarrow> [] | Some t \<Rightarrow> t)\<rparr>)\<rparr>))"

definition get_existing_order_ids :: "'dt orders_database \<Rightarrow> exn + json set" where
  "get_existing_order_ids db =
     (case cursor db of
        Inl e \<Rightarrow> Inl e
      | Inr c \<Rightarrow>
          (case orders_table c of
             None \<Rightarrow> Inl OperationalError
           | Some t \<Rightarrow> Inr (order_id ` set t)))"

section \<open>\<^verbatim>\<open>insert_orders\<close>\<close>

text \<open>
  The variables of the loop: the three counters, the set \<^verbatim>\<open>existing_ids\<close>, and the rows of
  the table that the cursor writes to.
\<close>

record 'dt loop_state =
  inserted :: int
  skipped :: int
  errors :: int
  existing_ids :: "json set"
  cur :: "'dt row list"

text \<open>
  \<^verbatim>\<open>datetime.fromisoformat\<close> is a parameter. Its argument here is any value of the record:
  one that is not a string raises \<^verbatim>\<open>TypeError\<close>, which the inner \<^verbatim>\<open>except Exception\<close> takes
  like a string that does not parse.
\<close>

fun parse_date :: "(string \<Rightarrow> 'dt option) \<Rightarrow> json \<Rightarrow> 'dt option" where
  "parse_date fromisoformat (JStr s) = fromisoformat s"
| "parse_date fromisoformat _ = None"

text \<open>
  The body of the \<^verbatim>\<open>try\<close>, lines 114 to 151: \<open>Inr\<close> is the state at a \<^verbatim>\<open>continue\<close> or at the
  end of the block, \<open>Inl\<close> an exception that leaves the block. The block changes a variable
  only after \<^verbatim>\<open>cur.execute\<close> has returned, so an exception leaves the state as it was.
\<close>

definition try_block ::
  "(string \<Rightarrow> 'dt option) \<Rightarrow> 'dt loop_state \<Rightarrow> json \<Rightarrow> exn + 'dt loop_state" where
  "try_block fromisoformat s raw =
     (case py_getitem raw ''order_id'' of Inl e \<Rightarrow> Inl e | Inr oid \<Rightarrow>
     (case py_in oid (existing_ids s) of Inl e \<Rightarrow> Inl e | Inr dup \<Rightarrow>
        (if dup then Inr (s\<lparr>skipped := skipped s + 1\<rparr>)
         else
     (case py_getitem raw ''status'' of Inl e \<Rightarrow> Inl e | Inr st \<Rightarrow>
     (case py_getitem raw ''date'' of Inl e \<Rightarrow> Inl e | Inr date_str \<Rightarrow>
     (case py_getitem raw ''amount'' of Inl e \<Rightarrow> Inl e | Inr am \<Rightarrow>
     (case py_get raw ''customer'' (JObj []) of Inl e \<Rightarrow> Inl e | Inr customer \<Rightarrow>
     (case py_get customer ''region'' JNull of Inl e \<Rightarrow> Inl e | Inr rg \<Rightarrow>
     (case parse_date fromisoformat date_str of
        None \<Rightarrow> Inr (s\<lparr>errors := errors s + 1\<rparr>)
      | Some order_dt \<Rightarrow>
          (if rg = JNull then Inr (s\<lparr>errors := errors s + 1\<rparr>)
           else
             (case execute_insert (cur s) oid st order_dt am rg of
                Inl e \<Rightarrow> Inl e
              | Inr t \<Rightarrow>
                  Inr (s\<lparr>cur := t, inserted := inserted s + 1,
                         existing_ids := insert oid (existing_ids s)\<rparr>))))))))))))"

text \<open>
  One turn of the loop, with the three handlers: \<^verbatim>\<open>KeyError\<close> counts an error,
  \<^verbatim>\<open>sqlite3.IntegrityError\<close> a skipped duplicate, any other exception an error.
\<close>

definition loop_body ::
  "(string \<Rightarrow> 'dt option) \<Rightarrow> 'dt loop_state \<Rightarrow> json \<Rightarrow> 'dt loop_state" where
  "loop_body fromisoformat s raw =
     (case try_block fromisoformat s raw of
        Inr s' \<Rightarrow> s'
      | Inl (KeyError k) \<Rightarrow> s\<lparr>errors := errors s + 1\<rparr>
      | Inl IntegrityError \<Rightarrow> s\<lparr>skipped := skipped s + 1\<rparr>
      | Inl _ \<Rightarrow> s\<lparr>errors := errors s + 1\<rparr>)"

fun for_loop ::
  "(string \<Rightarrow> 'dt option) \<Rightarrow> 'dt loop_state \<Rightarrow> json list \<Rightarrow> 'dt loop_state" where
  "for_loop fromisoformat s [] = s"
| "for_loop fromisoformat s (raw # orders) =
     for_loop fromisoformat (loop_body fromisoformat s raw) orders"

text \<open>
  \<^verbatim>\<open>insert_orders\<close>: the baseline of keys, the cursor, the loop, the commit (the rows become
  the table of the connection) and the three counters. An exception of the first two calls
  leaves the method. (The table exists where the loop starts, since its keys were read.)
\<close>

definition insert_orders ::
  "(string \<Rightarrow> 'dt option) \<Rightarrow> 'dt orders_database \<Rightarrow> json list
     \<Rightarrow> exn + ((int \<times> int \<times> int) \<times> 'dt orders_database)" where
  "insert_orders fromisoformat db orders =
     (case get_existing_order_ids db of Inl e \<Rightarrow> Inl e | Inr ids \<Rightarrow>
     (case cursor db of Inl e \<Rightarrow> Inl e | Inr c \<Rightarrow>
     (case orders_table c of None \<Rightarrow> Inl OperationalError | Some t \<Rightarrow>
        (let s = for_loop fromisoformat
                   \<lparr>inserted = 0, skipped = 0, errors = 0, existing_ids = ids, cur = t\<rparr> orders
         in Inr ((inserted s, skipped s, errors s),
                 db\<lparr>conn := Some (c\<lparr>orders_table := Some (cur s)\<rparr>)\<rparr>)))))"

section \<open>\<^verbatim>\<open>load_json\<close>\<close>








section \<open>Notions of the statements\<close>

text \<open>
  The shape of a record of the input file: \<^verbatim>\<open>order_id\<close> and \<^verbatim>\<open>status\<close> are strings, \<^verbatim>\<open>date\<close> is a
  string that \<^verbatim>\<open>fromisoformat\<close> reads, \<^verbatim>\<open>amount\<close> is a number that SQLite stores (a float, or an
  integer of 64 bits), and \<^verbatim>\<open>customer\<close> is a dict whose \<^verbatim>\<open>region\<close> is a string. The fields are
  read as the program reads them, with \<open>py_getitem\<close>.
\<close>

fun is_str :: "exn + json \<Rightarrow> bool" where
  "is_str (Inr (JStr s)) = True"
| "is_str _ = False"

fun is_number :: "exn + json \<Rightarrow> bool" where
  "is_number (Inr (JInt i)) = (- (2 ^ 63) \<le> i \<and> i < 2 ^ 63)"
| "is_number (Inr (JFloat x)) = True"
| "is_number _ = False"

fun is_date :: "(string \<Rightarrow> 'dt option) \<Rightarrow> exn + json \<Rightarrow> bool" where
  "is_date fromisoformat (Inr (JStr s)) = (fromisoformat s \<noteq> None)"
| "is_date fromisoformat _ = False"

fun has_region :: "exn + json \<Rightarrow> bool" where
  "has_region (Inr customer) = is_str (py_getitem customer ''region'')"
| "has_region (Inl e) = False"

definition valid_record :: "(string \<Rightarrow> 'dt option) \<Rightarrow> json \<Rightarrow> bool" where
  "valid_record fromisoformat raw \<longleftrightarrow>
     is_str (py_getitem raw ''order_id'') \<and>
     is_str (py_getitem raw ''status'') \<and>
     is_date fromisoformat (py_getitem raw ''date'') \<and>
     is_number (py_getitem raw ''amount'') \<and>
     has_region (py_getitem raw ''customer'')"

text \<open>
  The table that the methods of an object reach: that of an open connection, if it has the
  table. The counters of a state moved by given amounts.
\<close>

definition stored_orders :: "'dt orders_database \<Rightarrow> 'dt row list option" where
  "stored_orders db =
     (case conn db of
        None \<Rightarrow> None
      | Some c \<Rightarrow> if closed c then None else orders_table c)"


text \<open>
  The test of lines 114 and 115 succeeds: the record has an \<^verbatim>\<open>order_id\<close> and the set holds it.
\<close>

definition is_duplicate :: "json \<Rightarrow> json set \<Rightarrow> bool" where
  "is_duplicate raw ids =
     (case py_getitem raw ''order_id'' of
        Inl e \<Rightarrow> False
      | Inr oid \<Rightarrow> py_in oid ids = Inr True)"

section \<open>Sample values\<close>

text \<open>
  An instance of the parameter \<^verbatim>\<open>fromisoformat\<close> for the examples: it reads the format
  \<^verbatim>\<open>YYYY-MM-DDTHH:MM:SS\<close> of the documented input and gives the six numbers of the
  timestamp. (Python's function reads more formats; the theorems hold for every instance.)
\<close>

type_synonym datetime = "nat \<times> nat \<times> nat \<times> nat \<times> nat \<times> nat"

definition digit :: "char \<Rightarrow> nat option" where
  "digit c = (let n = (of_char c :: nat) in if 48 \<le> n \<and> n \<le> 57 then Some (n - 48) else None)"

fun number :: "nat \<Rightarrow> string \<Rightarrow> nat option" where
  "number acc [] = Some acc"
| "number acc (c # cs) = (case digit c of None \<Rightarrow> None | Some d \<Rightarrow> number (10 * acc + d) cs)"

definition days_in_month :: "nat \<Rightarrow> nat \<Rightarrow> nat" where
  "days_in_month y m =
     (if m = 2 then (if y mod 4 = 0 \<and> (y mod 100 \<noteq> 0 \<or> y mod 400 = 0) then 29 else 28)
      else if m = 4 \<or> m = 6 \<or> m = 9 \<or> m = 11 then 30 else 31)"

definition iso_datetime :: "string \<Rightarrow> datetime option" where
  "iso_datetime s =
     (if length s = 19 \<and> s ! 4 = CHR ''-'' \<and> s ! 7 = CHR ''-'' \<and> s ! 10 = CHR ''T'' \<and>
         s ! 13 = CHR '':'' \<and> s ! 16 = CHR '':''
      then
        (case number 0 (take 4 s) of None \<Rightarrow> None | Some y \<Rightarrow>
        (case number 0 (take 2 (drop 5 s)) of None \<Rightarrow> None | Some m \<Rightarrow>
        (case number 0 (take 2 (drop 8 s)) of None \<Rightarrow> None | Some d \<Rightarrow>
        (case number 0 (take 2 (drop 11 s)) of None \<Rightarrow> None | Some h \<Rightarrow>
        (case number 0 (take 2 (drop 14 s)) of None \<Rightarrow> None | Some mi \<Rightarrow>
        (case number 0 (take 2 (drop 17 s)) of None \<Rightarrow> None | Some se \<Rightarrow>
           (if 1 \<le> y \<and> 1 \<le> m \<and> m \<le> 12 \<and> 1 \<le> d \<and> d \<le> days_in_month y m \<and>
               h < 24 \<and> mi < 60 \<and> se < 60
            then Some (y, m, d, h, mi, se) else None)))))))
      else None)"

text \<open>The record of the documented scenario, and a store with an empty table.\<close>

definition order_A1 :: json where
  "order_A1 = JObj [(''order_id'', JStr ''A1''), (''status'', JStr ''paid''),
     (''date'', JStr ''2024-01-05T10:00:00''), (''amount'', JFloat 9.99),
     (''customer'', JObj [(''region'', JStr ''EU'')])]"

definition row_A1 :: "datetime row" where
  "row_A1 = \<lparr>order_id = JStr ''A1'', status = JStr ''paid'', date = (2024, 1, 5, 10, 0, 0),
     amount = JFloat 9.99, customer_region = JStr ''EU''\<rparr>"

definition order_B2 :: json where
  "order_B2 = JObj [(''order_id'', JStr ''B2''), (''status'', JStr ''new''),
     (''date'', JStr ''2024-01-05T10:00:00''), (''amount'', JInt 20),
     (''customer'', JObj [(''region'', JStr ''US'')])]"

definition row_B2 :: "datetime row" where
  "row_B2 = \<lparr>order_id = JStr ''B2'', status = JStr ''new'', date = (2024, 1, 5, 10, 0, 0),
     amount = JInt 20, customer_region = JStr ''US''\<rparr>"

definition store_of :: "datetime row list \<Rightarrow> datetime orders_database" where
  "store_of t = \<lparr>db_path = ''orders.db'', conn = Some \<lparr>closed = False, orders_table = Some t\<rparr>\<rparr>"



section \<open>The loop body\<close>

declare decimal.simps [simp del]


lemma execute_insert_Inr:
  "execute_insert t oid st dt am rg = Inr t' \<Longrightarrow>
     t' = t @ [\<lparr>order_id = oid, status = st, date = dt, amount = am, customer_region = rg\<rparr>]"
  unfolding execute_insert_def
  by (simp split: option.splits if_splits)

lemma try_block_Inr:
  assumes "try_block f s raw = Inr s'"
  shows "s' = s\<lparr>skipped := skipped s + 1\<rparr> \<or>
         s' = s\<lparr>errors := errors s + 1\<rparr> \<or>
         (\<exists>rw. s' = s\<lparr>cur := cur s @ [rw], inserted := inserted s + 1,
                     existing_ids := insert (order_id rw) (existing_ids s)\<rparr>)"
proof -
  define P where "P x \<longleftrightarrow> x = s\<lparr>skipped := skipped s + 1\<rparr> \<or>
         x = s\<lparr>errors := errors s + 1\<rparr> \<or>
         (\<exists>rw. x = s\<lparr>cur := cur s @ [rw], inserted := inserted s + 1,
                     existing_ids := insert (order_id rw) (existing_ids s)\<rparr>)" for x
  have P1: "P (s\<lparr>skipped := skipped s + 1\<rparr>)" and P2: "P (s\<lparr>errors := errors s + 1\<rparr>)"
    by (simp_all add: P_def)
  have P3: "P (s\<lparr>cur := cur s @ [\<lparr>order_id = oid, status = st, date = dt,
                     amount = am, customer_region = rg\<rparr>], inserted := inserted s + 1,
                     existing_ids := insert oid (existing_ids s)\<rparr>)" for oid st dt am rg
    unfolding P_def
    by (intro disjI2 exI [of _ "\<lparr>order_id = oid, status = st, date = dt,
                     amount = am, customer_region = rg\<rparr>"]) simp
  have "P s'"
    using assms unfolding try_block_def
    by (auto split: sum.splits option.splits if_splits dest!: execute_insert_Inr
        intro: P1 P2 P3)
  then show ?thesis by (simp add: P_def)
qed

lemma loop_body_Inr: "try_block f s raw = Inr s' \<Longrightarrow> loop_body f s raw = s'"
  by (simp add: loop_body_def)

lemma loop_body_Inl:
  "try_block f s raw = Inl e \<Longrightarrow>
     loop_body f s raw =
       (if e = IntegrityError then s\<lparr>skipped := skipped s + 1\<rparr> else s\<lparr>errors := errors s + 1\<rparr>)"
  by (cases e) (simp_all add: loop_body_def)

lemma loop_body_cases:
  "loop_body f s raw = s\<lparr>skipped := skipped s + 1\<rparr> \<or>
   loop_body f s raw = s\<lparr>errors := errors s + 1\<rparr> \<or>
   (\<exists>rw. loop_body f s raw =
      s\<lparr>cur := cur s @ [rw], inserted := inserted s + 1,
        existing_ids := insert (order_id rw) (existing_ids s)\<rparr>)"
proof (cases "try_block f s raw")
  case (Inl e)
  then show ?thesis by (simp add: loop_body_Inl)
next
  case (Inr s')
  then show ?thesis using try_block_Inr [OF Inr] by (simp add: loop_body_Inr)
qed


lemma is_strE: "is_str r \<Longrightarrow> (\<And>x. r = Inr (JStr x) \<Longrightarrow> thesis) \<Longrightarrow> thesis"
  by (cases r rule: is_str.cases) simp_all

lemma is_dateE:
  "is_date f r \<Longrightarrow> (\<And>x dt. r = Inr (JStr x) \<Longrightarrow> f x = Some dt \<Longrightarrow> thesis) \<Longrightarrow> thesis"
  by (cases "(f, r)" rule: is_date.cases) auto

lemma is_numberE:
  "is_number r \<Longrightarrow> (\<And>a. r = Inr a \<Longrightarrow> bind_param a = None \<Longrightarrow> a \<noteq> JNull \<Longrightarrow> thesis) \<Longrightarrow> thesis"
  by (cases r rule: is_number.cases) auto

lemma has_regionE:
  "has_region r \<Longrightarrow> (\<And>c x. r = Inr c \<Longrightarrow> py_getitem c ''region'' = Inr (JStr x) \<Longrightarrow> thesis) \<Longrightarrow> thesis"
  by (cases r rule: has_region.cases) (auto elim: is_strE)

lemma py_get_getitem: "py_getitem r k = Inr v \<Longrightarrow> py_get r k d = Inr v"
  by (cases r) (auto split: option.splits)

lemma try_block_valid:
  assumes "valid_record f raw" and "py_getitem raw ''order_id'' = Inr k"
    and "k \<notin> existing_ids s" and "order_id ` set (cur s) \<subseteq> existing_ids s"
  shows "\<exists>rw. order_id rw = k \<and> try_block f s raw =
           Inr (s\<lparr>cur := cur s @ [rw], inserted := inserted s + 1,
                  existing_ids := insert k (existing_ids s)\<rparr>)"
proof -
  from assms(1) have v: "is_str (py_getitem raw ''order_id'')" "is_str (py_getitem raw ''status'')"
    "is_date f (py_getitem raw ''date'')" "is_number (py_getitem raw ''amount'')"
    "has_region (py_getitem raw ''customer'')"
    by (simp_all add: valid_record_def)
  from v(1) assms(2) obtain ks where k: "k = JStr ks" by (auto elim: is_strE)
  from v(2) obtain st where st: "py_getitem raw ''status'' = Inr (JStr st)" by (rule is_strE)
  from v(3) obtain d dt where d: "py_getitem raw ''date'' = Inr (JStr d)" "f d = Some dt"
    by (rule is_dateE)
  from v(4) obtain am where am: "py_getitem raw ''amount'' = Inr am" "bind_param am = None" "am \<noteq> JNull"
    by (rule is_numberE)
  from v(5) obtain c rg where c: "py_getitem raw ''customer'' = Inr c"
      "py_getitem c ''region'' = Inr (JStr rg)"
    by (rule has_regionE)
  have fresh: "k \<notin> order_id ` set (cur s)" using assms(3,4) by blast
  have ex: "execute_insert (cur s) k (JStr st) dt am (JStr rg) =
      Inr (cur s @ [\<lparr>order_id = k, status = JStr st, date = dt, amount = am,
                      customer_region = JStr rg\<rparr>])"
    using fresh am by (simp add: execute_insert_def k)
  have "try_block f s raw =
      Inr (s\<lparr>cur := cur s @ [\<lparr>order_id = k, status = JStr st, date = dt, amount = am,
                      customer_region = JStr rg\<rparr>], inserted := inserted s + 1,
                  existing_ids := insert k (existing_ids s)\<rparr>)"
    using assms(2,3) st d am(1) c ex
    by (simp add: try_block_def py_in_def py_get_getitem k)
  then show ?thesis
    by (intro exI [of _ "\<lparr>order_id = k, status = JStr st, date = dt, amount = am,
                      customer_region = JStr rg\<rparr>"]) simp
qed








section \<open>The loop\<close>







lemma loop_body_superset:
  assumes "order_id ` set (cur s) \<subseteq> existing_ids s"
  shows "order_id ` set (cur (loop_body f s raw)) \<subseteq> existing_ids (loop_body f s raw)"
proof -
  consider "loop_body f s raw = s\<lparr>skipped := skipped s + 1\<rparr>"
    | "loop_body f s raw = s\<lparr>errors := errors s + 1\<rparr>"
    | rw where "loop_body f s raw = s\<lparr>cur := cur s @ [rw], inserted := inserted s + 1,
        existing_ids := insert (order_id rw) (existing_ids s)\<rparr>"
    using loop_body_cases [of f s raw] by blast
  then show ?thesis
  proof cases
    case 1
    with assms show ?thesis by simp
  next
    case 2
    with assms show ?thesis by simp
  next
    case 3
    have "order_id ` set (cur s @ [rw]) \<subseteq> insert (order_id rw) (existing_ids s)"
      using assms by auto
    with 3 show ?thesis by simp
  qed
qed

lemma for_loop_superset:
  "order_id ` set (cur s) \<subseteq> existing_ids s \<Longrightarrow>
     order_id ` set (cur (for_loop f s orders)) \<subseteq> existing_ids (for_loop f s orders)"
  by (induction orders arbitrary: s) (simp_all add: loop_body_superset)

lemma loop_body_counts:
  "inserted (loop_body f s raw) + skipped (loop_body f s raw) + errors (loop_body f s raw) =
     inserted s + skipped s + errors s + 1 \<and>
   inserted s \<le> inserted (loop_body f s raw) \<and>
   skipped s \<le> skipped (loop_body f s raw) \<and>
   errors s \<le> errors (loop_body f s raw)"
  using loop_body_cases [of f s raw] by auto

lemma for_loop_counts:
  "inserted (for_loop f s orders) + skipped (for_loop f s orders) + errors (for_loop f s orders) =
     inserted s + skipped s + errors s + int (length orders) \<and>
   inserted s \<le> inserted (for_loop f s orders) \<and>
   skipped s \<le> skipped (for_loop f s orders) \<and>
   errors s \<le> errors (for_loop f s orders)"
proof (induction orders arbitrary: s)
  case Nil
  show ?case by simp
next
  case (Cons raw orders)
  show ?case
    using Cons.IH [of "loop_body f s raw"] loop_body_counts [of f s raw] by simp
qed

section \<open>Batches\<close>

lemma insert_orders_stored:
  assumes "stored_orders db = Some t"
  shows "\<exists>c. conn db = Some c \<and> \<not> closed c \<and> orders_table c = Some t \<and>
     insert_orders f db orders =
       (let s = for_loop f \<lparr>inserted = 0, skipped = 0, errors = 0,
                             existing_ids = order_id ` set t, cur = t\<rparr> orders
        in Inr ((inserted s, skipped s, errors s),
                db\<lparr>conn := Some (c\<lparr>orders_table := Some (cur s)\<rparr>)\<rparr>))"
  using assms
  by (auto simp: stored_orders_def insert_orders_def get_existing_order_ids_def cursor_def
      split: option.splits if_splits)



lemma loop_body_is_duplicate:
  assumes "is_duplicate raw (existing_ids s)"
  shows "loop_body f s raw = s\<lparr>skipped := skipped s + 1\<rparr>"
  using assms
  by (auto simp: is_duplicate_def loop_body_def try_block_def split: sum.splits)

lemma stored_orders_update:
  assumes "conn db = Some c" and "\<not> closed c"
  shows "stored_orders (db\<lparr>conn := Some (c\<lparr>orders_table := Some t\<rparr>)\<rparr>) = Some t"
  using assms by (simp add: stored_orders_def)







section \<open>The sample values\<close>

lemma stored_store_of: "stored_orders (store_of t) = Some t"
  by (simp add: stored_orders_def store_of_def)

lemma iso_2024: "iso_datetime ''2024-01-05T10:00:00'' = Some (2024, 1, 5, 10, 0, 0)"
  by (simp add: iso_datetime_def digit_def days_in_month_def)


lemmas run_defs = insert_orders_def get_existing_order_ids_def cursor_def store_of_def
  loop_body_def try_block_def py_in_def execute_insert_def



section \<open>The table only grows\<close>




section \<open>Duplicates\<close>



section \<open>Rejected records\<close>










section \<open>Running a batch twice\<close>

lemma for_loop_all_duplicates:
  "\<forall>raw\<in>set orders. is_duplicate raw (existing_ids s) \<Longrightarrow>
     for_loop f s orders = s\<lparr>skipped := skipped s + int (length orders)\<rparr>"
proof (induction orders arbitrary: s)
  case Nil
  show ?case by simp
next
  case (Cons raw orders)
  have step: "loop_body f s raw = s\<lparr>skipped := skipped s + 1\<rparr>"
    using Cons.prems by (simp add: loop_body_is_duplicate)
  have "for_loop f (s\<lparr>skipped := skipped s + 1\<rparr>) orders =
      (s\<lparr>skipped := skipped s + 1\<rparr>)\<lparr>skipped := skipped (s\<lparr>skipped := skipped s + 1\<rparr>) +
         int (length orders)\<rparr>"
    using Cons.prems by (intro Cons.IH) simp
  with step show ?case by simp
qed

lemma for_loop_valid_fresh:
  assumes "\<forall>raw\<in>set orders. valid_record f raw"
    and "distinct (map (\<lambda>raw. py_getitem raw ''order_id'') orders)"
    and "\<forall>raw\<in>set orders. \<forall>k. py_getitem raw ''order_id'' = Inr k \<longrightarrow> k \<notin> existing_ids s"
    and "order_id ` set (cur s) \<subseteq> existing_ids s"
  shows "\<exists>new. for_loop f s orders =
           s\<lparr>cur := cur s @ new, inserted := inserted s + int (length orders),
             existing_ids := existing_ids s \<union> order_id ` set new\<rparr> \<and>
           map (\<lambda>rw. Inr (order_id rw)) new = map (\<lambda>raw. py_getitem raw ''order_id'') orders"
  using assms
proof (induction orders arbitrary: s)
  case Nil
  show ?case by simp
next
  case (Cons raw orders)
  from Cons.prems(1) have v: "valid_record f raw" by simp
  then obtain k where k: "py_getitem raw ''order_id'' = Inr k"
    by (auto simp: valid_record_def elim: is_strE)
  with Cons.prems(3) have fresh: "k \<notin> existing_ids s" by simp
  obtain rw where rw: "order_id rw = k"
    and tb: "try_block f s raw = Inr (s\<lparr>cur := cur s @ [rw], inserted := inserted s + 1,
                  existing_ids := insert k (existing_ids s)\<rparr>)"
    using try_block_valid [OF v k fresh Cons.prems(4)] by blast
  define s1 where "s1 = s\<lparr>cur := cur s @ [rw], inserted := inserted s + 1,
                  existing_ids := insert k (existing_ids s)\<rparr>"
  have step: "loop_body f s raw = s1"
    using tb unfolding s1_def by (rule loop_body_Inr)
  have a: "\<forall>raw\<in>set orders. valid_record f raw" using Cons.prems(1) by simp
  have b: "distinct (map (\<lambda>raw. py_getitem raw ''order_id'') orders)"
    using Cons.prems(2) by simp
  have c: "\<forall>raw'\<in>set orders. \<forall>k'. py_getitem raw' ''order_id'' = Inr k' \<longrightarrow> k' \<notin> existing_ids s1"
  proof (intro ballI allI impI)
    fix raw' k'
    assume in': "raw' \<in> set orders" and k': "py_getitem raw' ''order_id'' = Inr k'"
    from Cons.prems(3) in' k' have "k' \<notin> existing_ids s" by simp
    moreover have "k' \<noteq> k"
    proof
      assume "k' = k"
      with k k' have "py_getitem raw ''order_id'' = py_getitem raw' ''order_id''" by simp
      with in' have "py_getitem raw ''order_id'' \<in> set (map (\<lambda>raw. py_getitem raw ''order_id'') orders)"
        by auto
      with Cons.prems(2) show False by simp
    qed
    ultimately show "k' \<notin> existing_ids s1" by (simp add: s1_def)
  qed
  have d: "order_id ` set (cur s1) \<subseteq> existing_ids s1"
    using Cons.prems(4) rw by (auto simp: s1_def)
  obtain new where new: "for_loop f s1 orders =
           s1\<lparr>cur := cur s1 @ new, inserted := inserted s1 + int (length orders),
             existing_ids := existing_ids s1 \<union> order_id ` set new\<rparr>"
    and ids: "map (\<lambda>rw. Inr (order_id rw)) new = map (\<lambda>raw. py_getitem raw ''order_id'') orders"
    using Cons.IH [OF a b c d] by blast
  have "for_loop f s (raw # orders) =
           s\<lparr>cur := cur s @ (rw # new), inserted := inserted s + int (length (raw # orders)),
             existing_ids := existing_ids s \<union> order_id ` set (rw # new)\<rparr>"
    using new step rw by (simp add: s1_def)
  moreover have "map (\<lambda>rw. Inr (order_id rw)) (rw # new) =
      map (\<lambda>raw. py_getitem raw ''order_id'') (raw # orders)"
    using ids rw k by simp
  ultimately show ?case by blast
qed

lemma filter_key_once:
  assumes "distinct (map g xs)" and "y \<in> g ` set xs"
  shows "length (filter (\<lambda>x. g x = y) xs) = 1"
  using assms
proof (induction xs)
  case Nil
  then show ?case by simp
next
  case (Cons x xs)
  show ?case
  proof (cases "g x = y")
    case True
    with Cons.prems(1) have "y \<notin> g ` set xs" by auto
    then have "filter (\<lambda>x. g x = y) xs = []" by (auto simp: filter_empty_conv)
    with True show ?thesis by simp
  next
    case False
    with Cons show ?thesis by auto
  qed
qed

text \<open>
  \<^bold>\<open>C3.\<close> Let the \<open>N\<close> records of a batch be valid, with \<^verbatim>\<open>order_id\<close>s that are pairwise distinct
  and that are not keys of the table. The first run returns \<open>(N, 0, 0)\<close>; a second run of the
  same batch on the store that the first one left returns \<open>(0, N, 0)\<close> and leaves that store
  as it is. The first run appends one row per record, in the order of the batch and with
  the record's \<^verbatim>\<open>order_id\<close>, to the rows that were there, so that the table holds exactly one
  row for each \<^verbatim>\<open>order_id\<close> of the batch.
\<close>

theorem idempotent_on_distinct_keys:
  assumes "stored_orders db = Some t"
    and "\<forall>raw\<in>set orders. valid_record f raw"
    and "distinct (map (\<lambda>raw. py_getitem raw ''order_id'') orders)"
    and "\<forall>raw\<in>set orders. \<forall>k. py_getitem raw ''order_id'' = Inr k \<longrightarrow> k \<notin> order_id ` set t"
  shows "\<exists>db1 new.
           insert_orders f db orders = Inr ((int (length orders), 0, 0), db1) \<and>
           insert_orders f db1 orders = Inr ((0, int (length orders), 0), db1) \<and>
           stored_orders db1 = Some (t @ new) \<and>
           map (\<lambda>rw. Inr (order_id rw)) new = map (\<lambda>raw. py_getitem raw ''order_id'') orders \<and>
           (\<forall>raw\<in>set orders. \<forall>k. py_getitem raw ''order_id'' = Inr k \<longrightarrow>
              length (filter (\<lambda>rw. order_id rw = k) (t @ new)) = 1)"
proof -
  let ?s0 = "\<lparr>inserted = 0, skipped = 0, errors = 0, existing_ids = order_id ` set t, cur = t\<rparr>"
  obtain c where c: "conn db = Some c" "\<not> closed c"
    and run: "insert_orders f db orders =
       (let s = for_loop f ?s0 orders
        in Inr ((inserted s, skipped s, errors s),
                db\<lparr>conn := Some (c\<lparr>orders_table := Some (cur s)\<rparr>)\<rparr>))"
    using insert_orders_stored [OF assms(1), of f orders] by blast
  obtain new where loop: "for_loop f ?s0 orders =
           ?s0\<lparr>cur := cur ?s0 @ new, inserted := inserted ?s0 + int (length orders),
             existing_ids := existing_ids ?s0 \<union> order_id ` set new\<rparr>"
    and ids: "map (\<lambda>rw. Inr (order_id rw)) new = map (\<lambda>raw. py_getitem raw ''order_id'') orders"
    using for_loop_valid_fresh [OF assms(2,3), of ?s0] assms(4) by auto
  define db1 where "db1 = db\<lparr>conn := Some (c\<lparr>orders_table := Some (t @ new)\<rparr>)\<rparr>"
  have first: "insert_orders f db orders = Inr ((int (length orders), 0, 0), db1)"
    by (simp add: run loop db1_def)
  have st1: "stored_orders db1 = Some (t @ new)"
    unfolding db1_def using c by (rule stored_orders_update)
  have keys: "py_getitem raw ''order_id'' = Inr k \<Longrightarrow> k \<in> order_id ` set new"
    if "raw \<in> set orders" for raw k
  proof -
    assume k: "py_getitem raw ''order_id'' = Inr k"
    from that have "py_getitem raw ''order_id'' \<in> set (map (\<lambda>raw. py_getitem raw ''order_id'') orders)"
      by auto
    with ids k have "Inr k \<in> set (map (\<lambda>rw. Inr (order_id rw) :: exn + json) new)" by simp
    then show ?thesis by auto
  qed
  have dups: "\<forall>raw\<in>set orders. is_duplicate raw (order_id ` set (t @ new))"
  proof
    fix raw assume raw: "raw \<in> set orders"
    with assms(2) have "valid_record f raw" by simp
    then obtain x where x: "py_getitem raw ''order_id'' = Inr (JStr x)"
      by (auto simp: valid_record_def elim: is_strE)
    with keys [OF raw] have "JStr x \<in> order_id ` set new" by simp
    then have "JStr x \<in> order_id ` set (t @ new)" by auto
    with x show "is_duplicate raw (order_id ` set (t @ new))"
      by (simp add: is_duplicate_def py_in_def)
  qed
  let ?s1 = "\<lparr>inserted = 0, skipped = 0, errors = 0, existing_ids = order_id ` set (t @ new),
              cur = t @ new\<rparr>"
  have "for_loop f ?s1 orders = ?s1\<lparr>skipped := skipped ?s1 + int (length orders)\<rparr>"
    by (rule for_loop_all_duplicates) (use dups in simp)
  then have second: "insert_orders f db1 orders = Inr ((0, int (length orders), 0), db1)"
    using insert_orders_stored [OF st1, of f orders] c
    by (auto simp: Let_def db1_def)
  have dist: "distinct (map order_id new)"
  proof -
    have "distinct (map (\<lambda>rw. Inr (order_id rw) :: exn + json) new)"
      using assms(3) ids by simp
    then have "distinct (map (Inr :: json \<Rightarrow> exn + json) (map order_id new))"
      by (simp add: comp_def)
    then show ?thesis by (simp add: distinct_map inj_on_def)
  qed
  have once: "\<forall>raw\<in>set orders. \<forall>k. py_getitem raw ''order_id'' = Inr k \<longrightarrow>
              length (filter (\<lambda>rw. order_id rw = k) (t @ new)) = 1"
  proof (intro ballI allI impI)
    fix raw k
    assume raw: "raw \<in> set orders" and k: "py_getitem raw ''order_id'' = Inr k"
    from assms(4) raw k have "k \<notin> order_id ` set t" by simp
    then have "filter (\<lambda>rw. order_id rw = k) t = []" by (auto simp: filter_empty_conv)
    moreover have "length (filter (\<lambda>rw. order_id rw = k) new) = 1"
      using dist keys [OF raw k] by (rule filter_key_once)
    ultimately show "length (filter (\<lambda>rw. order_id rw = k) (t @ new)) = 1" by simp
  qed
  from first second st1 ids once show ?thesis by blast
qed

text \<open>An instance: the two sample records on an empty store.\<close>

theorem idempotent_on_distinct_keys_witness:
  "\<exists>db1 new.
     insert_orders iso_datetime (store_of []) [order_A1, order_B2] = Inr ((2, 0, 0), db1) \<and>
     insert_orders iso_datetime db1 [order_A1, order_B2] = Inr ((0, 2, 0), db1) \<and>
     stored_orders db1 = Some ([] @ new) \<and>
     map (\<lambda>rw. Inr (order_id rw)) new = [Inr (JStr ''A1''), Inr (JStr ''B2'')] \<and>
     length (filter (\<lambda>rw. order_id rw = JStr ''A1'') ([] @ new)) = 1 \<and>
     length (filter (\<lambda>rw. order_id rw = JStr ''B2'') ([] @ new)) = 1"
proof -
  have 1: "stored_orders (store_of []) = Some ([] :: datetime row list)"
    by (rule stored_store_of)
  have 2: "\<forall>raw\<in>set [order_A1, order_B2]. valid_record iso_datetime raw"
    by (simp add: valid_record_def order_A1_def order_B2_def iso_2024)
  have 3: "distinct (map (\<lambda>raw. py_getitem raw ''order_id'') [order_A1, order_B2])"
    by (simp add: order_A1_def order_B2_def)
  have 4: "\<forall>raw\<in>set [order_A1, order_B2]. \<forall>k. py_getitem raw ''order_id'' = Inr k \<longrightarrow>
      k \<notin> order_id ` set ([] :: datetime row list)"
    by simp
  have 5: "py_getitem order_A1 ''order_id'' = Inr (JStr ''A1'')"
    "py_getitem order_B2 ''order_id'' = Inr (JStr ''B2'')"
    by (simp_all add: order_A1_def order_B2_def)
  show ?thesis
    using idempotent_on_distinct_keys [OF 1 2 3 4] 5 by auto
qed

text \<open>
  The \<^verbatim>\<open>order_id\<close>s have to be distinct. Without that the sentence fails: the record of the
  scenario twice, on an empty store, is a batch of two valid records whose \<^verbatim>\<open>order_id\<close> is not in
  the store, and the first run returns \<open>(1, 1, 0)\<close>, not \<open>(2, 0, 0)\<close>.
\<close>

theorem idempotent_counterexample:
  "valid_record iso_datetime order_A1 \<and>
   py_getitem order_A1 ''order_id'' = Inr (JStr ''A1'') \<and>
   JStr ''A1'' \<notin> order_id ` set ([] :: datetime row list) \<and>
   length [order_A1, order_A1] = 2 \<and>
   insert_orders iso_datetime (store_of []) [order_A1, order_A1] =
     Inr ((1, 1, 0), store_of [row_A1])"
  by (simp add: run_defs valid_record_def order_A1_def row_A1_def iso_2024)

section \<open>The documented scenario\<close>

text \<open>
  \<^bold>\<open>C6.\<close> On a store whose table is empty, the batch of the one record
  \<^verbatim>\<open>{"order_id":"A1","status":"paid","date":"2024-01-05T10:00:00","amount":9.99,"customer":{"region":"EU"}}\<close>
  returns \<open>(1, 0, 0)\<close>, and the table then holds exactly one row: \<^verbatim>\<open>A1\<close>, \<^verbatim>\<open>paid\<close>, the timestamp
  that \<^verbatim>\<open>fromisoformat\<close> gives for the string of the date, \<open>9.99\<close> and \<^verbatim>\<open>EU\<close>, the value of
  \<^verbatim>\<open>customer.region\<close>.
\<close>

theorem scenario_one_record:
  assumes "stored_orders db = Some []" and "f ''2024-01-05T10:00:00'' = Some dt"
  shows "\<exists>db'. insert_orders f db
           [JObj [(''order_id'', JStr ''A1''), (''status'', JStr ''paid''),
                  (''date'', JStr ''2024-01-05T10:00:00''), (''amount'', JFloat 9.99),
                  (''customer'', JObj [(''region'', JStr ''EU'')])]] = Inr ((1, 0, 0), db') \<and>
         stored_orders db' =
           Some [\<lparr>order_id = JStr ''A1'', status = JStr ''paid'', date = dt,
                  amount = JFloat 9.99, customer_region = JStr ''EU''\<rparr>]"
proof -
  let ?raw = "JObj [(''order_id'', JStr ''A1''), (''status'', JStr ''paid''),
                  (''date'', JStr ''2024-01-05T10:00:00''), (''amount'', JFloat 9.99),
                  (''customer'', JObj [(''region'', JStr ''EU'')])]"
  let ?s = "\<lparr>inserted = 0, skipped = 0, errors = 0, existing_ids = order_id ` set ([] :: 'a row list),
             cur = [] :: 'a row list\<rparr>"
  obtain c where c: "conn db = Some c" "\<not> closed c"
    and run: "insert_orders f db [?raw] =
       (let s = for_loop f ?s [?raw]
        in Inr ((inserted s, skipped s, errors s),
                db\<lparr>conn := Some (c\<lparr>orders_table := Some (cur s)\<rparr>)\<rparr>))"
    using insert_orders_stored [OF assms(1), of f "[?raw]"] by blast
  have "loop_body f ?s ?raw =
      \<lparr>inserted = 1, skipped = 0, errors = 0, existing_ids = {JStr ''A1''},
       cur = [\<lparr>order_id = JStr ''A1'', status = JStr ''paid'', date = dt,
                  amount = JFloat 9.99, customer_region = JStr ''EU''\<rparr>]\<rparr>"
    by (simp add: loop_body_def try_block_def py_in_def execute_insert_def assms(2))
  with run c show ?thesis
    by (simp add: stored_orders_update)
qed

text \<open>
  An instance: the empty store is the one that \<^verbatim>\<open>create_schema\<close> makes on a connection to a file
  without the table, and the timestamp is the 5th of January 2024, 10:00:00.
\<close>

theorem scenario_one_record_witness:
  "create_schema \<lparr>db_path = ''orders.db'', conn = Some \<lparr>closed = False, orders_table = None\<rparr>\<rparr> =
     Inr (store_of ([] :: datetime row list)) \<and>
   (\<exists>db'. insert_orders iso_datetime (store_of [])
           [JObj [(''order_id'', JStr ''A1''), (''status'', JStr ''paid''),
                  (''date'', JStr ''2024-01-05T10:00:00''), (''amount'', JFloat 9.99),
                  (''customer'', JObj [(''region'', JStr ''EU'')])]] = Inr ((1, 0, 0), db') \<and>
         stored_orders db' =
           Some [\<lparr>order_id = JStr ''A1'', status = JStr ''paid'', date = (2024, 1, 5, 10, 0, 0),
                  amount = JFloat 9.99, customer_region = JStr ''EU''\<rparr>])"
proof -
  have "create_schema \<lparr>db_path = ''orders.db'',
      conn = Some \<lparr>closed = False, orders_table = None\<rparr>\<rparr> =
     Inr (store_of ([] :: datetime row list))"
    by (simp add: create_schema_def cursor_def store_of_def)
  then show ?thesis
    using scenario_one_record [of "store_of []" iso_datetime "(2024, 1, 5, 10, 0, 0)"]
    by (simp add: stored_store_of iso_2024)
qed

section \<open>The set of existing keys\<close>

lemma try_block_key:
  assumes "try_block f s raw = Inr s'"
  shows "cur s' = cur s \<or>
         (\<exists>rw. cur s' = cur s @ [rw] \<and> py_getitem raw ''order_id'' = Inr (order_id rw))"
proof -
  define P where "P x \<longleftrightarrow> cur x = cur s \<or>
         (\<exists>rw. cur x = cur s @ [rw] \<and> py_getitem raw ''order_id'' = Inr (order_id rw))"
    for x :: "'a loop_state"
  have P1: "cur x = cur s \<Longrightarrow> P x" for x by (simp add: P_def)
  have P3: "py_getitem raw ''order_id'' = Inr oid \<Longrightarrow>
     P (s\<lparr>cur := cur s @ [\<lparr>order_id = oid, status = st, date = dt,
                     amount = am, customer_region = rg\<rparr>], inserted := inserted s + 1,
                     existing_ids := insert oid (existing_ids s)\<rparr>)" for oid st dt am rg
    unfolding P_def by simp
  have "P s'"
    using assms unfolding try_block_def
    by (auto split: sum.splits option.splits if_splits dest!: execute_insert_Inr
        intro: P1 P3)
  then show ?thesis by (simp add: P_def)
qed

lemma loop_body_key:
  "cur (loop_body f s raw) = cur s \<or>
   (\<exists>rw. cur (loop_body f s raw) = cur s @ [rw] \<and>
      py_getitem raw ''order_id'' = Inr (order_id rw))"
proof (cases "try_block f s raw")
  case (Inl e)
  then show ?thesis by (simp add: loop_body_Inl)
next
  case (Inr s')
  then show ?thesis using try_block_key [OF Inr] by (simp add: loop_body_Inr)
qed

lemma for_loop_keys:
  "order_id ` set (cur (for_loop f s orders)) \<subseteq>
     order_id ` set (cur s) \<union> {k. \<exists>raw\<in>set orders. py_getitem raw ''order_id'' = Inr k}"
proof (induction orders arbitrary: s)
  case Nil
  show ?case by simp
next
  case (Cons raw orders)
  have "order_id ` set (cur (loop_body f s raw)) \<subseteq>
      order_id ` set (cur s) \<union> {k. py_getitem raw ''order_id'' = Inr k}"
    using loop_body_key [of f s raw] by auto
  with Cons.IH [of "loop_body f s raw"] show ?case by auto
qed

text \<open>
  \<^bold>\<open>C7.\<close> \<^verbatim>\<open>insert_orders\<close> seeds the set \<^verbatim>\<open>existing_ids\<close> with the keys of the table. Let every
  \<^verbatim>\<open>order_id\<close> of the table and of the records be a value that the column keeps as it is, a
  string (or \<^verbatim>\<open>None\<close>). Then after any number \<open>n\<close> of turns of the loop, the set holds the key
  that the table keeps for each of its rows: a key that a turn inserts is in the set before
  the next record is read.
\<close>

theorem existing_ids_cover_table:
  assumes "get_existing_order_ids db = Inr ids" and "cursor db = Inr c"
    and "orders_table c = Some t"
    and "\<forall>rw\<in>set t. text_affinity (order_id rw) = Some (order_id rw)"
    and "\<forall>raw\<in>set orders. \<forall>k. py_getitem raw ''order_id'' = Inr k \<longrightarrow> text_affinity k = Some k"
    and "s = for_loop f \<lparr>inserted = 0, skipped = 0, errors = 0, existing_ids = ids, cur = t\<rparr>
               (take n orders)"
  shows "ids = order_id ` set t \<and>
         (\<forall>rw\<in>set (cur s). \<exists>k. text_affinity (order_id rw) = Some k \<and> k \<in> existing_ids s)"
proof -
  let ?s0 = "\<lparr>inserted = 0, skipped = 0, errors = 0, existing_ids = ids, cur = t\<rparr>"
  have ids: "ids = order_id ` set t"
    using assms(1,2,3) by (simp add: get_existing_order_ids_def)
  have inv: "order_id ` set (cur s) \<subseteq> existing_ids s"
    unfolding assms(6) by (rule for_loop_superset) (simp add: ids)
  have origin: "order_id ` set (cur s) \<subseteq>
      order_id ` set t \<union> {k. \<exists>raw\<in>set (take n orders). py_getitem raw ''order_id'' = Inr k}"
    unfolding assms(6) using for_loop_keys [of f ?s0 "take n orders"] by simp
  have "\<exists>k. text_affinity (order_id rw) = Some k \<and> k \<in> existing_ids s"
    if rw: "rw \<in> set (cur s)" for rw
  proof -
    from rw inv have mem: "order_id rw \<in> existing_ids s" by auto
    from rw origin have "order_id rw \<in> order_id ` set t \<or>
        (\<exists>raw\<in>set (take n orders). py_getitem raw ''order_id'' = Inr (order_id rw))"
      by auto
    then have "text_affinity (order_id rw) = Some (order_id rw)"
    proof
      assume "order_id rw \<in> order_id ` set t"
      with assms(4) show ?thesis by auto
    next
      assume "\<exists>raw\<in>set (take n orders). py_getitem raw ''order_id'' = Inr (order_id rw)"
      then obtain raw where "raw \<in> set (take n orders)"
        and k: "py_getitem raw ''order_id'' = Inr (order_id rw)" by blast
      then have "raw \<in> set orders" by (auto dest: in_set_takeD)
      with assms(5) k show ?thesis by blast
    qed
    with mem show ?thesis by blast
  qed
  with ids show ?thesis by blast
qed

text \<open>
  An instance: a store with one row, after two records of a batch of three. The table then
  has two rows, and the set holds the key of each.
\<close>

theorem existing_ids_cover_table_witness:
  "cur (for_loop iso_datetime
       \<lparr>inserted = 0, skipped = 0, errors = 0, existing_ids = order_id ` set [row_A1],
        cur = [row_A1]\<rparr> (take 2 [order_A1, order_B2, order_B2])) = [row_A1, row_B2] \<and>
   (\<exists>k. text_affinity (order_id row_A1) = Some k \<and>
       k \<in> existing_ids (for_loop iso_datetime
       \<lparr>inserted = 0, skipped = 0, errors = 0, existing_ids = order_id ` set [row_A1],
        cur = [row_A1]\<rparr> (take 2 [order_A1, order_B2, order_B2]))) \<and>
   (\<exists>k. text_affinity (order_id row_B2) = Some k \<and>
       k \<in> existing_ids (for_loop iso_datetime
       \<lparr>inserted = 0, skipped = 0, errors = 0, existing_ids = order_id ` set [row_A1],
        cur = [row_A1]\<rparr> (take 2 [order_A1, order_B2, order_B2])))"
proof -
  let ?s = "for_loop iso_datetime
       \<lparr>inserted = 0, skipped = 0, errors = 0, existing_ids = order_id ` set [row_A1],
        cur = [row_A1]\<rparr> (take 2 [order_A1, order_B2, order_B2])"
  have 1: "get_existing_order_ids (store_of [row_A1]) = Inr (order_id ` set [row_A1])"
    by (simp add: get_existing_order_ids_def cursor_def store_of_def)
  have 2: "cursor (store_of [row_A1]) = Inr \<lparr>closed = False, orders_table = Some [row_A1]\<rparr>"
    by (simp add: cursor_def store_of_def)
  have 3: "orders_table \<lparr>closed = False, orders_table = Some [row_A1]\<rparr> = Some [row_A1]"
    by simp
  have 4: "\<forall>rw\<in>set [row_A1]. text_affinity (order_id rw) = Some (order_id rw)"
    by (simp add: row_A1_def)
  have 5: "\<forall>raw\<in>set [order_A1, order_B2, order_B2]. \<forall>k.
      py_getitem raw ''order_id'' = Inr k \<longrightarrow> text_affinity k = Some k"
    by (auto simp: order_A1_def order_B2_def)
  have rows: "cur ?s = [row_A1, row_B2]"
    by (simp add: loop_body_def try_block_def py_in_def execute_insert_def order_A1_def
        order_B2_def row_A1_def row_B2_def iso_2024)
  have "\<forall>rw\<in>set (cur ?s). \<exists>k. text_affinity (order_id rw) = Some k \<and> k \<in> existing_ids ?s"
    using existing_ids_cover_table [OF 1 2 3 4 5 refl, of iso_datetime 2] by blast
  with rows show ?thesis by simp
qed

text \<open>
  The keys have to be strings. As the sentence stands (the set is a superset of the keys of
  the table at every point) it fails: on an empty store, a record with the integer 1 as
  \<^verbatim>\<open>order_id\<close> is inserted, line 150 adds the integer to the set, and the column keeps the text
  \<^verbatim>\<open>'1'\<close>, which the set does not hold.
\<close>

theorem existing_ids_integer_key_counterexample:
  "get_existing_order_ids (store_of ([] :: datetime row list)) = Inr {} \<and>
   cur (loop_body iso_datetime
     \<lparr>inserted = 0, skipped = 0, errors = 0, existing_ids = {}, cur = []\<rparr>
     (JObj [(''order_id'', JInt 1), (''status'', JStr ''paid''),
            (''date'', JStr ''2024-01-05T10:00:00''), (''amount'', JFloat 9.99),
            (''customer'', JObj [(''region'', JStr ''EU'')])])) =
     [\<lparr>order_id = JInt 1, status = JStr ''paid'', date = (2024, 1, 5, 10, 0, 0),
       amount = JFloat 9.99, customer_region = JStr ''EU''\<rparr>] \<and>
   existing_ids (loop_body iso_datetime
     \<lparr>inserted = 0, skipped = 0, errors = 0, existing_ids = {}, cur = []\<rparr>
     (JObj [(''order_id'', JInt 1), (''status'', JStr ''paid''),
            (''date'', JStr ''2024-01-05T10:00:00''), (''amount'', JFloat 9.99),
            (''customer'', JObj [(''region'', JStr ''EU'')])])) = {JInt 1} \<and>
   text_affinity (JInt 1) = Some (JStr ''1'') \<and>
   JStr ''1'' \<notin> {JInt 1}"
  by (simp add: run_defs iso_2024 int_text_def decimal.simps)

section \<open>The counters\<close>

text \<open>
  \<^bold>\<open>C9.\<close> On a store with an open connection and the table, \<^verbatim>\<open>insert_orders\<close> returns for every
  list of records, whatever the records are, and the three counters it returns are not
  negative and add up to the length of the list. (On any other store it raises before the
  loop and returns no counters.)
\<close>

theorem counters_add_up:
  assumes "stored_orders db = Some t"
  shows "\<exists>i s e db'. insert_orders f db orders = Inr ((i, s, e), db') \<and>
           i + s + e = int (length orders) \<and> 0 \<le> i \<and> 0 \<le> s \<and> 0 \<le> e"
proof -
  let ?s0 = "\<lparr>inserted = 0, skipped = 0, errors = 0, existing_ids = order_id ` set t, cur = t\<rparr>"
  obtain c where run: "insert_orders f db orders =
       (let s = for_loop f ?s0 orders
        in Inr ((inserted s, skipped s, errors s),
                db\<lparr>conn := Some (c\<lparr>orders_table := Some (cur s)\<rparr>)\<rparr>))"
    using insert_orders_stored [OF assms, of f orders] by blast
  from for_loop_counts [of f ?s0 orders] run show ?thesis
    by (simp add: Let_def)
qed

text \<open>
  An instance: a batch with two valid records, a repeated one, a record that is not a dict
  and a record whose \<^verbatim>\<open>order_id\<close> is a list.
\<close>

theorem counters_add_up_witness:
  "\<exists>i s e db'. insert_orders iso_datetime (store_of [])
       [order_A1, JInt 7, order_A1, JObj [(''order_id'', JArr [])], order_B2] =
         Inr ((i, s, e), db') \<and>
       i + s + e = int (length [order_A1, JInt 7, order_A1, JObj [(''order_id'', JArr [])], order_B2]) \<and>
       0 \<le> i \<and> 0 \<le> s \<and> 0 \<le> e"
  using counters_add_up [of "store_of []" "[]" iso_datetime
      "[order_A1, JInt 7, order_A1, JObj [(''order_id'', JArr [])], order_B2]"]
  by (simp add: stored_store_of)

section \<open>Closing\<close>

text \<open>
  \<^bold>\<open>C10.\<close> \<^verbatim>\<open>close\<close> raises in no state of the object, and a second \<^verbatim>\<open>close\<close> raises nothing
  either and changes nothing. When the connection is \<^verbatim>\<open>None\<close>, as it is after \<^verbatim>\<open>__init__\<close> and
  after a \<^verbatim>\<open>connect\<close> that raised, \<^verbatim>\<open>close\<close> leaves the object as it is.
\<close>

theorem close_never_raises:
  "(\<exists>db'. close db = Inr db' \<and> close db' = Inr db') \<and>
   close (db\<lparr>conn := None\<rparr>) = Inr (db\<lparr>conn := None\<rparr>) \<and>
   close (new_orders_database path) = Inr (new_orders_database path) \<and>
   (case connect sqlite3_connect (new_orders_database path) of
      Inl e \<Rightarrow> close (new_orders_database path) = Inr (new_orders_database path)
    | Inr db1 \<Rightarrow> \<exists>db2. close db1 = Inr db2 \<and> close db2 = Inr db2)"
  by (cases "sqlite3_connect path")
    (auto simp: close_def connect_def new_orders_database_def split: option.splits)

section \<open>The loader\<close>




end
